theory Spec2Isabelle
  imports Complex_Main
begin

section \<open>JavaScript values used by the component\<close>

text \<open>
  The component \<open>WalletAnalysis\<close> of \<open>src/WalletAnalysis.tsx\<close> is a function from its
  props (and the active tab held by \<open>useState\<close>) to a tree of elements. Strings are
  modelled as \<open>string\<close>, \<open>undefined\<close> as \<open>None\<close>, and an exception thrown while
  rendering as \<open>Inl\<close> of a sum.
\<close>

datatype error = TypeError | RangeError

text \<open>
  A JavaScript \<open>number\<close>: a finite value, one of the two infinities, or NaN. Only the
  comparison with zero is computed here; formatting is left to the library functions.
\<close>

datatype number = Finite real | PosInfinity | NegInfinity | NaN

fun gt_zero :: "number \<Rightarrow> bool" where
  "gt_zero (Finite r) = (0 < r)"
| "gt_zero PosInfinity = True"
| "gt_zero NegInfinity = False"
| "gt_zero NaN = False"

text \<open>\<open>xs[i]\<close>: the element, or \<open>undefined\<close> out of range.\<close>

definition at_index :: "'a list \<Rightarrow> nat \<Rightarrow> 'a option" where
  "at_index xs i = (if i < length xs then Some (xs ! i) else None)"

text \<open>\<open>s.startsWith(p)\<close>.\<close>

definition startsWith :: "string \<Rightarrow> string \<Rightarrow> bool" where
  "startsWith s p = (take (length p) s = p)"

text \<open>
  \<open>s.split(sep)\<close> with a string separator: the text is scanned from the left; where the
  separator matches, the piece read so far is closed and the scan goes on behind the
  separator. The result always has at least one piece. With the empty separator the
  string is cut into its characters.
\<close>

function scan :: "string \<Rightarrow> string \<Rightarrow> string list" where
  "scan sep [] = [[]]"
| "scan sep (c # cs) =
     (if sep \<noteq> [] \<and> startsWith (c # cs) sep
      then [] # scan sep (drop (length sep) (c # cs))
      else (case scan sep cs of [] \<Rightarrow> [[c]] | w # ws \<Rightarrow> (c # w) # ws))"
  by pat_completeness auto
termination
  by (relation "measure (\<lambda>(sep, s). length s)") auto

definition js_split :: "string \<Rightarrow> string \<Rightarrow> string list" where
  "js_split s sep = (if sep = [] then map (\<lambda>c. [c]) s else scan sep s)"

text \<open>\<open>a || b\<close> on strings: \<open>undefined\<close> and the empty string are falsy.\<close>

fun or_else :: "string option \<Rightarrow> string \<Rightarrow> string" where
  "or_else None d = d"
| "or_else (Some s) d = (if s = [] then d else s)"

text \<open>
  The loop of \<open>Array.prototype.map\<close> with a callback that may throw: the first
  exception ends the loop.
\<close>

fun map_throwing :: "('a \<Rightarrow> error + 'b) \<Rightarrow> 'a list \<Rightarrow> error + 'b list" where
  "map_throwing f [] = Inr []"
| "map_throwing f (x # xs) =
     (case f x of
        Inl e \<Rightarrow> Inl e
      | Inr y \<Rightarrow> (case map_throwing f xs of Inl e \<Rightarrow> Inl e | Inr ys \<Rightarrow> Inr (y # ys)))"

section \<open>The swaps tab\<close>

text \<open>
  One swap is the five values destructured in the callback of the swaps tab; each is
  the second piece of its line split at \<open>": "\<close>, \<open>undefined\<close> when the line has no
  separator.
\<close>

record SwapRecord =
  timestamp :: "string option"
  fromToken :: "string option"
  toToken :: "string option"
  amount :: "string option"
  usdEquivalent :: "string option"

text \<open>
  \<open>const [, v] = swapDetails[i].split(": ")\<close>: reading \<open>split\<close> of \<open>undefined\<close> throws a
  TypeError when the block has no such line.
\<close>

definition detail :: "string list \<Rightarrow> nat \<Rightarrow> error + string option" where
  "detail swapDetails i =
     (case at_index swapDetails i of
        None \<Rightarrow> Inl TypeError
      | Some line \<Rightarrow> Inr (at_index (js_split line '': '') 1))"

definition swap_row :: "string \<Rightarrow> error + SwapRecord" where
  "swap_row swap =
     (let swapDetails = tl (js_split swap ''\<newline>'') in
      case detail swapDetails 0 of Inl e \<Rightarrow> Inl e | Inr ts \<Rightarrow>
      case detail swapDetails 1 of Inl e \<Rightarrow> Inl e | Inr fromT \<Rightarrow>
      case detail swapDetails 2 of Inl e \<Rightarrow> Inl e | Inr toT \<Rightarrow>
      case detail swapDetails 3 of Inl e \<Rightarrow> Inl e | Inr amt \<Rightarrow>
      case detail swapDetails 4 of Inl e \<Rightarrow> Inl e | Inr usd \<Rightarrow>
        Inr \<lparr>timestamp = ts, fromToken = fromT, toToken = toT,
             amount = amt, usdEquivalent = usd\<rparr>)"

definition swap_rows :: "string \<Rightarrow> error + SwapRecord list" where
  "swap_rows swapActivity = map_throwing swap_row (js_split swapActivity ''\<newline>\<newline>'')"

definition sentinel :: string where
  "sentinel = ''No swap activity data available.''"

datatype swaps_view = Sentinel_Message string | Swap_Table "SwapRecord list"

definition swaps_tab :: "string \<Rightarrow> error + swaps_view" where
  "swaps_tab swapActivity =
     (if swapActivity = sentinel then Inr (Sentinel_Message swapActivity)
      else (case swap_rows swapActivity of
              Inl e \<Rightarrow> Inl e
            | Inr rows \<Rightarrow> Inr (Swap_Table rows)))"

text \<open>
  The input texts the protocol describes: lines joined by a line break into a block,
  blocks joined by a blank line into the text.
\<close>

fun join :: "string \<Rightarrow> string list \<Rightarrow> string" where
  "join sep [] = []"
| "join sep [x] = x"
| "join sep (x # y # ys) = x @ sep @ join sep (y # ys)"

definition block_text :: "string list \<Rightarrow> string" where
  "block_text ls = join ''\<newline>'' ls"

definition activity_text :: "string list list \<Rightarrow> string" where
  "activity_text blocks = join ''\<newline>\<newline>'' (map block_text blocks)"

text \<open>A line \<open>key: value\<close> of the protocol.\<close>

definition key_value :: "string \<Rightarrow> string \<Rightarrow> string" where
  "key_value k v = k @ '': '' @ v"

text \<open>Whether \<open>sep\<close> occurs somewhere in \<open>s\<close>.\<close>

fun occurs :: "string \<Rightarrow> string \<Rightarrow> bool" where
  "occurs sep [] = (sep = [])"
| "occurs sep (c # cs) = (startsWith (c # cs) sep \<or> occurs sep cs)"

text \<open>
  A well-formed block: a header line, then at least five lines \<open>key: value\<close>; a line
  holds no line break.
\<close>

definition kv_line :: "string \<Rightarrow> bool" where
  "kv_line l = (CHR ''\<newline>'' \<notin> set l \<and> occurs '': '' l)"

definition well_formed_block :: "string list \<Rightarrow> bool" where
  "well_formed_block ls =
     (case ls of
        [] \<Rightarrow> False
      | header # details \<Rightarrow>
          CHR ''\<newline>'' \<notin> set header \<and> 5 \<le> length details \<and> list_all kv_line details)"

text \<open>The records a rendered swaps tab shows: none under the sentinel message.\<close>

fun rows_of :: "swaps_view \<Rightarrow> SwapRecord list" where
  "rows_of (Sentinel_Message m) = []"
| "rows_of (Swap_Table rows) = rows"

section \<open>The token logo\<close>

text \<open>
  \<open>String.prototype.toUpperCase\<close> is a function of the language, not of this
  component: \<open>TokenLogo\<close> takes it as a parameter. On text made of ASCII characters
  only it replaces each of the letters \<open>a\<close> to \<open>z\<close> by its capital and leaves every
  other character alone; \<open>ascii_upper\<close> is that replacement. (Outside ASCII the
  function does more, and may change the length: \<open>\<ss>\<close> becomes \<open>SS\<close>.)
\<close>

definition ascii :: "char \<Rightarrow> bool" where
  "ascii c = (of_char c < (128::nat))"

definition ascii_upper :: "char \<Rightarrow> char" where
  "ascii_upper c =
     (case map_of (zip ''abcdefghijklmnopqrstuvwxyz'' ''ABCDEFGHIJKLMNOPQRSTUVWXYZ'') c of
        None \<Rightarrow> c
      | Some u \<Rightarrow> u)"

datatype logo_element = Badge string | Img string string

text \<open>A value put into a template literal: \<open>undefined\<close> prints as that word.\<close>

fun template_text :: "string option \<Rightarrow> string" where
  "template_text None = ''undefined''"
| "template_text (Some s) = s"

text \<open>
  \<open>TokenLogo\<close> with its prop \<open>symbol\<close> and its own state \<open>error\<close>. The swaps table
  passes a value that may be \<open>undefined\<close>; \<open>undefined.slice\<close> throws.
\<close>

definition TokenLogo :: "(string \<Rightarrow> string) \<Rightarrow> string option \<Rightarrow> bool \<Rightarrow> error + logo_element" where
  "TokenLogo toUpperCase symbol error =
     (let logoUrl = ''https://raw.githubusercontent.com/solana-labs/token-list/main/assets/mainnet/''
                    @ template_text symbol @ ''/logo.png'' in
      if error then
        (case symbol of
           None \<Rightarrow> Inl TypeError
         | Some s \<Rightarrow> Inr (Badge (toUpperCase (take 2 s))))
      else Inr (Img (or_else (Some logoUrl) ''/placeholder.svg'')
                    (template_text symbol @ '' logo'')))"

text \<open>
  Mounted instances of a component, in document order. An instance is rendered from
  its props, from its own hook state and from whatever the component keeps at module
  scope, which all instances share; an event handler of instance \<open>i\<close> may write the
  hook state of that instance and the module scope.
\<close>

definition render_instances :: "('p \<Rightarrow> 's \<Rightarrow> 'g \<Rightarrow> 'v) \<Rightarrow> 'p list \<Rightarrow> 's list \<Rightarrow> 'g \<Rightarrow> 'v list" where
  "render_instances view props states scope = map (\<lambda>(p, s). view p s scope) (zip props states)"

definition fire ::
  "('p \<Rightarrow> 's \<Rightarrow> 'g \<Rightarrow> 's \<times> 'g) \<Rightarrow> nat \<Rightarrow> 'p list \<Rightarrow> 's list \<Rightarrow> 'g \<Rightarrow> 's list \<times> 'g" where
  "fire handler i props states scope =
     (if i < length props \<and> i < length states
      then (case handler (props ! i) (states ! i) scope of
              (s, scope') \<Rightarrow> (states[i := s], scope'))
      else (states, scope))"

text \<open>
  \<open>TokenLogo\<close> as such a component: it reads nothing at module scope, its state starts
  as \<open>useState(false)\<close>, and its only handler is \<open>onError={() => setError(true)}\<close>.
\<close>

definition TokenLogo_view ::
  "(string \<Rightarrow> string) \<Rightarrow> string option \<Rightarrow> bool \<Rightarrow> 'g \<Rightarrow> error + logo_element" where
  "TokenLogo_view toUpperCase symbol error scope = TokenLogo toUpperCase symbol error"

definition TokenLogo_onError :: "string option \<Rightarrow> bool \<Rightarrow> 'g \<Rightarrow> bool \<times> 'g" where
  "TokenLogo_onError symbol error scope = (True, scope)"

definition initial_errors :: "string option list \<Rightarrow> bool list" where
  "initial_errors symbols = map (\<lambda>_. False) symbols"

text \<open>The logos the swaps table mounts: two for each row.\<close>

definition swap_logos :: "SwapRecord list \<Rightarrow> string option list" where
  "swap_logos rows = concat (map (\<lambda>r. [fromToken r, toToken r]) rows)"

section \<open>The overview, tokens and transactions tabs\<close>

text \<open>
  The library functions the component calls on numbers and dates are parameters:
  \<open>x.toFixed(d)\<close>, \<open>x.toString()\<close>, and \<open>formatDistanceToNow(new Date(t), {addSuffix: true})\<close>,
  which throws on a text that is no date.
\<close>

record lib =
  toFixed :: "number \<Rightarrow> nat \<Rightarrow> string"
  toString :: "number \<Rightarrow> string"
  formatDistanceToNow :: "string \<Rightarrow> error + string"

datatype icon = ArrowUpRight | ArrowDownRight | Activity | DollarSign | Coins

record DataCard =
  card_title :: string
  card_value :: string
  card_icon :: icon
  card_color :: string

record PnlItem =
  pnl_token :: string
  pnl_amount :: string

record PnlBox =
  box_token :: string
  box_amount :: string
  box_class :: string

record OverviewView =
  cards :: "DataCard list"
  breakdown :: "PnlBox list option"

definition total_value_card :: "lib \<Rightarrow> number \<Rightarrow> DataCard" where
  "total_value_card L totalValue =
     \<lparr>card_title = ''Total Value'', card_value = ''$'' @ toFixed L totalValue 2,
      card_icon = DollarSign, card_color = ''green''\<rparr>"

definition token_count_card :: "lib \<Rightarrow> number \<Rightarrow> DataCard" where
  "token_count_card L tokenCount =
     \<lparr>card_title = ''Token Count'', card_value = toString L tokenCount,
      card_icon = Coins, card_color = ''purple''\<rparr>"

definition overall_pnl_card :: "string \<Rightarrow> DataCard" where
  "overall_pnl_card overallPNL =
     \<lparr>card_title = ''Overall PNL'', card_value = overallPNL,
      card_icon = (if startsWith overallPNL ''-'' then ArrowDownRight else ArrowUpRight),
      card_color = (if startsWith overallPNL ''-'' then ''red'' else ''green'')\<rparr>"

definition pnl_percentage_card :: "string \<Rightarrow> DataCard" where
  "pnl_percentage_card pnlPercentage =
     \<lparr>card_title = ''PNL %'', card_value = pnlPercentage,
      card_icon = Activity,
      card_color = (if startsWith pnlPercentage ''-'' then ''red'' else ''green'')\<rparr>"

definition pnl_box :: "PnlItem \<Rightarrow> PnlBox" where
  "pnl_box item =
     \<lparr>box_token = pnl_token item, box_amount = pnl_amount item,
      box_class = (if startsWith (pnl_amount item) ''-'' then ''text-red-400''
                   else ''text-green-400'')\<rparr>"

definition overview_tab ::
  "lib \<Rightarrow> number \<Rightarrow> number \<Rightarrow> string \<Rightarrow> string \<Rightarrow> PnlItem list \<Rightarrow> OverviewView" where
  "overview_tab L totalValue tokenCount overallPNL pnlPercentage pnlByToken =
     \<lparr>cards = [total_value_card L totalValue, token_count_card L tokenCount,
               overall_pnl_card overallPNL, pnl_percentage_card pnlPercentage],
      breakdown = (if length pnlByToken > 0 then Some (map pnl_box pnlByToken) else None)\<rparr>"

text \<open>
  The two-valued class that the four tests \<open>startsWith("-")\<close> of the overview compute.
\<close>

datatype SignClass = positive | negative

definition classifySign :: "string \<Rightarrow> SignClass" where
  "classifySign s = (if startsWith s ''-'' then negative else positive)"

text \<open>
  The fields of a token that the tokens tab reads; those it guards with \<open>?.\<close> or
  \<open>||\<close> may be \<open>undefined\<close>.
\<close>

record Token =
  tk_logoURI :: "string option"
  tk_name :: "string option"
  tk_symbol :: "string option"
  tk_uiAmount :: "number option"
  tk_valueUsd :: "number option"
  tk_priceUsd :: "number option"

record TokenRow =
  tkr_src :: string
  tkr_alt :: string
  tkr_name :: string
  tkr_symbol :: string
  tkr_balance :: string
  tkr_value :: string
  tkr_price :: string

definition token_row :: "lib \<Rightarrow> Token \<Rightarrow> TokenRow" where
  "token_row L token =
     \<lparr>tkr_src = or_else (tk_logoURI token) ''/placeholder.svg'',
      tkr_alt = or_else (tk_name token) ''Unknown Token'',
      tkr_name = or_else (tk_name token) ''Unknown Token'',
      tkr_symbol = or_else (tk_symbol token) ''N/A'',
      tkr_balance = or_else (map_option (\<lambda>x. toFixed L x 4) (tk_uiAmount token)) ''N/A'',
      tkr_value = ''$'' @ or_else (map_option (\<lambda>x. toFixed L x 2) (tk_valueUsd token)) ''N/A'',
      tkr_price = ''$'' @ or_else (map_option (\<lambda>x. toFixed L x 4) (tk_priceUsd token)) ''N/A''\<rparr>"

datatype tokens_view = Tokens_Table "TokenRow list" | No_Tokens string

definition tokens_tab :: "lib \<Rightarrow> Token list \<Rightarrow> tokens_view" where
  "tokens_tab L topTokens =
     (if length topTokens > 0 then Tokens_Table (map (token_row L) topTokens)
      else No_Tokens ''No tokens found in this wallet.'')"

text \<open>The fields of a transaction and of a balance change that the row reads.\<close>

record BalanceChange =
  bc_logoURI :: "string option"
  bc_symbol :: string
  bc_uiAmount :: number

record Transaction =
  balanceChange :: "BalanceChange list"
  blockTime :: string
  mainAction :: string

text \<open>
  A rendered transaction row; a child that is \<open>undefined\<close> is rendered as nothing
  (\<open>None\<close>).
\<close>

record TransactionRow =
  row_action :: string
  row_time :: string
  row_src :: string
  row_alt :: "string option"
  row_symbol :: "string option"
  row_amount :: "string option"

definition transaction_row :: "lib \<Rightarrow> Transaction \<Rightarrow> error + TransactionRow" where
  "transaction_row L transaction =
     (case formatDistanceToNow L (blockTime transaction) of
        Inl e \<Rightarrow> Inl e
      | Inr ago \<Rightarrow>
          (let first = at_index (balanceChange transaction) 0 in
           Inr \<lparr>row_action = mainAction transaction,
                row_time = ago,
                row_src = or_else (Option.bind first bc_logoURI) ''/placeholder.svg'',
                row_alt = map_option bc_symbol first,
                row_symbol = map_option bc_symbol first,
                row_amount = map_option (\<lambda>b. toFixed L (bc_uiAmount b) 6) first\<rparr>))"

definition transactions_tab :: "lib \<Rightarrow> Transaction list \<Rightarrow> error + TransactionRow list" where
  "transactions_tab L recentTransactions = map_throwing (transaction_row L) recentTransactions"

section \<open>The component\<close>

record WalletAnalysisProps =
  totalValue :: number
  tokenCount :: number
  topTokens :: "Token list"
  recentTransactions :: "Transaction list"
  swapActivity :: string
  overallPNL :: string
  pnlPercentage :: string
  pnlByToken :: "PnlItem list"
  analysis :: string

text \<open>The state \<open>activeTab\<close>; the tab buttons set it to one of four values.\<close>

datatype tab = Overview | Tokens | Transactions | Swaps

datatype tab_content =
    Overview_Content OverviewView
  | Tokens_Content tokens_view
  | Transactions_Content "TransactionRow list"
  | Swaps_Content swaps_view

datatype view = No_Portfolio_Data | Tabbed_View tab tab_content

definition hasData :: "WalletAnalysisProps \<Rightarrow> bool" where
  "hasData p =
     (gt_zero (totalValue p) \<or> gt_zero (tokenCount p)
      \<or> length (topTokens p) > 0 \<or> length (recentTransactions p) > 0)"

fun tab_view :: "lib \<Rightarrow> WalletAnalysisProps \<Rightarrow> tab \<Rightarrow> error + tab_content" where
  "tab_view L p Overview =
     Inr (Overview_Content (overview_tab L (totalValue p) (tokenCount p) (overallPNL p)
                              (pnlPercentage p) (pnlByToken p)))"
| "tab_view L p Tokens = Inr (Tokens_Content (tokens_tab L (topTokens p)))"
| "tab_view L p Transactions =
     (case transactions_tab L (recentTransactions p) of
        Inl e \<Rightarrow> Inl e | Inr rows \<Rightarrow> Inr (Transactions_Content rows))"
| "tab_view L p Swaps =
     (case swaps_tab (swapActivity p) of
        Inl e \<Rightarrow> Inl e | Inr v \<Rightarrow> Inr (Swaps_Content v))"

definition WalletAnalysis :: "lib \<Rightarrow> WalletAnalysisProps \<Rightarrow> tab \<Rightarrow> error + view" where
  "WalletAnalysis L p activeTab =
     (if \<not> hasData p then Inr No_Portfolio_Data
      else (case tab_view L p activeTab of
              Inl e \<Rightarrow> Inl e
            | Inr c \<Rightarrow> Inr (Tabbed_View activeTab c)))"

section \<open>Example inputs\<close>

definition example_block_1 :: "string list" where
  "example_block_1 =
     [''Swap'', ''Timestamp: 2024-01-01'', ''From: SOL'', ''To: USDC'', ''Amount: 10'',
      ''USD Equivalent: $150.00'']"

definition example_block_2 :: "string list" where
  "example_block_2 =
     ['''', ''Timestamp: 2024-01-02 10:00'', ''From: USDC'', ''To: BONK'', ''Amount: 5'',
      ''USD Equivalent: $5.00'', ''Note: extra line'']"

definition cut_block :: "string list" where
  "cut_block =
     [''Swap'', ''Timestamp: 2024-01-01 12: 30'', ''From: SOL'', ''To: USDC'', ''Amount: 10'',
      ''USD Equivalent: $150.00'']"

definition short_block :: string where
  "short_block = ''Swap\<newline>Timestamp: 2024-01-01\<newline>From: SOL\<newline>To: USDC\<newline>Amount: 10''"

text \<open>
  A stand-in for the library functions, a snapshot without any data and a transaction
  without balance changes, for the examples.
\<close>

definition example_lib :: lib where
  "example_lib =
     \<lparr>toFixed = (\<lambda>x d. ''0''), toString = (\<lambda>x. ''0''),
      formatDistanceToNow = (\<lambda>t. if t = [] then Inl RangeError else Inr ''1 day ago'')\<rparr>"

definition empty_snapshot :: WalletAnalysisProps where
  "empty_snapshot =
     \<lparr>totalValue = Finite 0, tokenCount = Finite 0, topTokens = [], recentTransactions = [],
      swapActivity = ''No swap activity data available.'', overallPNL = ''0.00'',
      pnlPercentage = ''0.00%'', pnlByToken = [], analysis = ''''\<rparr>"

definition bare_transaction :: Transaction where
  "bare_transaction =
     \<lparr>balanceChange = [], blockTime = ''2024-01-01T00:00:00Z'', mainAction = ''transfer''\<rparr>"

text \<open>Two swaps out of the same token.\<close>

definition sol_rows :: "SwapRecord list" where
  "sol_rows =
     [\<lparr>timestamp = Some ''2024-01-01'', fromToken = Some ''sol'', toToken = Some ''USDC'',
       amount = Some ''10'', usdEquivalent = Some ''$150.00''\<rparr>,
      \<lparr>timestamp = Some ''2024-01-02'', fromToken = Some ''sol'', toToken = Some ''Bonk'',
       amount = Some ''5'', usdEquivalent = Some ''$75.00''\<rparr>]"

section \<open>Splitting and joining\<close>


lemma startsWith_append: "startsWith x sep \<Longrightarrow> startsWith (x @ y) sep"
proof -
  assume h: "startsWith x sep"
  then have "length (take (length sep) x) = length sep"
    unfolding startsWith_def by simp
  then have "length sep \<le> length x"
    by simp
  with h show ?thesis by (simp add: startsWith_def)
qed

lemma occurs_Nil: "occurs [] y"
  by (cases y) (simp_all add: startsWith_def)

lemma occurs_append: "occurs sep x \<Longrightarrow> occurs sep (x @ y)"
proof (induction x)
  case Nil
  then show ?case by (simp add: occurs_Nil)
next
  case (Cons c cs)
  then show ?case using startsWith_append [of "c # cs" sep y] by auto
qed

lemma startsWith_self: "startsWith (sep @ r) sep"
  by (simp add: startsWith_def)

lemma scan_sep: "sep \<noteq> [] \<Longrightarrow> scan sep (sep @ r) = [] # scan sep r"
proof -
  assume ne: "sep \<noteq> []"
  then obtain c cs where s: "sep @ r = c # cs" by (cases sep) auto
  have "startsWith (c # cs) sep" using startsWith_self [of sep r] s by simp
  then have "scan sep (c # cs) = [] # scan sep (drop (length sep) (c # cs))"
    using ne by simp
  then show ?thesis using s by (metis append_eq_conv_conj)
qed

lemma startsWith_cut:
  assumes "sep \<noteq> []"
  shows "startsWith (x @ sep @ r) sep \<Longrightarrow> x \<noteq> [] \<Longrightarrow> startsWith (x @ butlast sep) sep"
proof -
  assume h: "startsWith (x @ sep @ r) sep" and x: "x \<noteq> []"
  have len: "length sep \<le> length (x @ butlast sep)"
    using x assms by (cases x; cases sep rule: rev_cases) auto
  have "x @ sep @ r = (x @ butlast sep) @ (last sep # r)"
    using assms by (simp add: append_butlast_last_id [symmetric] del: append_butlast_last_id)
  then have "take (length sep) (x @ sep @ r) = take (length sep) (x @ butlast sep)"
    using len by (metis append.right_neutral diff_is_0_eq take_0 take_append)
  with h show ?thesis by (simp add: startsWith_def)
qed

lemma scan_piece:
  "sep \<noteq> [] \<Longrightarrow> \<not> occurs sep (b @ butlast sep) \<Longrightarrow> scan sep (b @ sep @ r) = b # scan sep r"
proof (induction b)
  case Nil
  then show ?case by (simp add: scan_sep)
next
  case (Cons c b)
  have no: "\<not> startsWith ((c # b) @ butlast sep) sep" and rest: "\<not> occurs sep (b @ butlast sep)"
    using Cons.prems(2) by auto
  have "\<not> startsWith ((c # b) @ sep @ r) sep"
    using no startsWith_cut [OF Cons.prems(1), of "c # b" r] by blast
  then have "scan sep ((c # b) @ sep @ r) =
      (case scan sep (b @ sep @ r) of [] \<Rightarrow> [[c]] | w # ws \<Rightarrow> (c # w) # ws)"
    by simp
  also have "\<dots> = (c # b) # scan sep r"
    using Cons.IH [OF Cons.prems(1) rest] by simp
  finally show ?case .
qed

lemma scan_whole: "sep \<noteq> [] \<Longrightarrow> \<not> occurs sep b \<Longrightarrow> scan sep b = [b]"
  by (induction b) auto

lemma scan_join:
  "sep \<noteq> [] \<Longrightarrow> bs \<noteq> [] \<Longrightarrow> \<forall>b \<in> set bs. \<not> occurs sep (b @ butlast sep)
   \<Longrightarrow> scan sep (join sep bs) = bs"
proof (induction sep bs rule: join.induct)
  case (1 sep)
  then show ?case by simp
next
  case (2 sep x)
  then have "\<not> occurs sep x" using occurs_append by auto
  then show ?case using 2 by (simp add: scan_whole)
next
  case (3 sep x y ys)
  then show ?case by (simp add: scan_piece)
qed

lemma occurs_single: "occurs [c] s = (c \<in> set s)"
  by (induction s) (auto simp: startsWith_def)

lemma occurs_blank_skip:
  "CHR ''\<newline>'' \<notin> set l \<Longrightarrow> occurs ''\<newline>\<newline>'' (l @ r) = occurs ''\<newline>\<newline>'' r"
  by (induction l) (auto simp: startsWith_def)

lemma occurs_blank_break:
  "r \<noteq> [] \<Longrightarrow> hd r \<noteq> CHR ''\<newline>''
   \<Longrightarrow> occurs ''\<newline>\<newline>'' (CHR ''\<newline>'' # r) = occurs ''\<newline>\<newline>'' r"
  by (cases r) (auto simp: startsWith_def)

lemma kv_line_nonempty: "kv_line l \<Longrightarrow> l \<noteq> [] \<and> hd l \<noteq> CHR ''\<newline>''"
  by (cases l) (auto simp: kv_line_def)

lemma details_no_blank:
  "ds \<noteq> [] \<Longrightarrow> list_all kv_line ds \<Longrightarrow>
   join ''\<newline>'' ds \<noteq> [] \<and> hd (join ''\<newline>'' ds) \<noteq> CHR ''\<newline>''
   \<and> \<not> occurs ''\<newline>\<newline>'' (join ''\<newline>'' ds @ ''\<newline>'')"
proof (induction "''\<newline>''" ds rule: join.induct)
  case 1
  then show ?case by simp
next
  case (2 x)
  then have k: "kv_line x" by simp
  then have "CHR ''\<newline>'' \<notin> set x" by (simp add: kv_line_def)
  then have "occurs ''\<newline>\<newline>'' (x @ ''\<newline>'') = occurs ''\<newline>\<newline>'' ''\<newline>''"
    by (rule occurs_blank_skip)
  then show ?case using kv_line_nonempty [OF k] by (simp add: startsWith_def)
next
  case (3 x y ys)
  then have k: "kv_line x" and rest: "list_all kv_line (y # ys)" by simp_all
  have nl: "CHR ''\<newline>'' \<notin> set x" using k by (simp add: kv_line_def)
  let ?r = "join ''\<newline>'' (y # ys)"
  have ih: "?r \<noteq> []" "hd ?r \<noteq> CHR ''\<newline>''" "\<not> occurs ''\<newline>\<newline>'' (?r @ ''\<newline>'')"
    using 3 rest by simp_all
  have "occurs ''\<newline>\<newline>'' (x @ (CHR ''\<newline>'' # ?r @ ''\<newline>''))
        = occurs ''\<newline>\<newline>'' (CHR ''\<newline>'' # ?r @ ''\<newline>'')"
    using nl by (rule occurs_blank_skip)
  also have "\<dots> = occurs ''\<newline>\<newline>'' (?r @ ''\<newline>'')"
    using ih by (intro occurs_blank_break) simp_all
  finally have "\<not> occurs ''\<newline>\<newline>'' (join ''\<newline>'' (x # y # ys) @ ''\<newline>'')"
    using ih(3) by simp
  then show ?case using kv_line_nonempty [OF k] by (cases x) simp_all
qed

lemma block_no_blank:
  assumes "well_formed_block ls"
  shows "\<not> occurs ''\<newline>\<newline>'' (block_text ls @ ''\<newline>'')"
proof -
  from assms obtain header d ds where ls: "ls = header # d # ds"
    and h: "CHR ''\<newline>'' \<notin> set header" and k: "list_all kv_line (d # ds)"
    by (cases ls; cases "tl ls") (auto simp: well_formed_block_def)
  let ?r = "join ''\<newline>'' (d # ds)"
  have r: "?r \<noteq> []" "hd ?r \<noteq> CHR ''\<newline>''" "\<not> occurs ''\<newline>\<newline>'' (?r @ ''\<newline>'')"
    using details_no_blank [OF _ k] by simp_all
  have "occurs ''\<newline>\<newline>'' (header @ (CHR ''\<newline>'' # ?r @ ''\<newline>''))
        = occurs ''\<newline>\<newline>'' (CHR ''\<newline>'' # ?r @ ''\<newline>'')"
    using h by (rule occurs_blank_skip)
  also have "\<dots> = occurs ''\<newline>\<newline>'' (?r @ ''\<newline>'')"
    using r by (intro occurs_blank_break) simp_all
  finally show ?thesis using r(3) by (simp add: ls block_text_def)
qed

lemma block_lines:
  assumes "ls \<noteq> []" and "\<forall>l \<in> set ls. CHR ''\<newline>'' \<notin> set l"
  shows "js_split (block_text ls) ''\<newline>'' = ls"
proof -
  have "\<forall>l \<in> set ls. \<not> occurs ''\<newline>'' (l @ butlast ''\<newline>'')"
    using assms(2) by (simp add: occurs_single)
  then have "scan ''\<newline>'' (join ''\<newline>'' ls) = ls"
    using assms(1) by (intro scan_join) simp_all
  then show ?thesis by (simp add: js_split_def block_text_def)
qed

lemma well_formed_lines:
  "well_formed_block ls \<Longrightarrow> ls \<noteq> [] \<and> (\<forall>l \<in> set ls. CHR ''\<newline>'' \<notin> set l)"
  by (cases ls) (auto simp: well_formed_block_def list_all_iff kv_line_def)

lemma detail_in_range:
  "i < length ds \<Longrightarrow> detail ds i = Inr (at_index (js_split (ds ! i) '': '') 1)"
  by (simp add: detail_def at_index_def)

lemma detail_out_of_range: "length ds \<le> i \<Longrightarrow> detail ds i = Inl TypeError"
  by (simp add: detail_def at_index_def)

lemma swap_row_lines:
  assumes "js_split swap ''\<newline>'' = header # ds" and "5 \<le> length ds"
  shows "swap_row swap =
     Inr \<lparr>timestamp = at_index (js_split (ds ! 0) '': '') 1,
          fromToken = at_index (js_split (ds ! 1) '': '') 1,
          toToken = at_index (js_split (ds ! 2) '': '') 1,
          amount = at_index (js_split (ds ! 3) '': '') 1,
          usdEquivalent = at_index (js_split (ds ! 4) '': '') 1\<rparr>"
proof -
  have d: "detail ds 0 = Inr (at_index (js_split (ds ! 0) '': '') 1)"
    "detail ds 1 = Inr (at_index (js_split (ds ! 1) '': '') 1)"
    "detail ds 2 = Inr (at_index (js_split (ds ! 2) '': '') 1)"
    "detail ds 3 = Inr (at_index (js_split (ds ! 3) '': '') 1)"
    "detail ds 4 = Inr (at_index (js_split (ds ! 4) '': '') 1)"
    using assms(2) by (auto simp: detail_def at_index_def)
  have "tl (js_split swap ''\<newline>'') = ds" using assms(1) by simp
  then show ?thesis
    unfolding swap_row_def Let_def by (simp only: d sum.case)
qed

lemma swap_row_short:
  assumes "length (js_split swap ''\<newline>'') < 6"
  shows "swap_row swap = Inl TypeError"
proof -
  let ?ds = "tl (js_split swap ''\<newline>'')"
  have len: "length ?ds < 5" using assms by simp
  have cases: "length ?ds \<le> 0 \<or> length ?ds \<le> 1 \<or> length ?ds \<le> 2 \<or> length ?ds \<le> 3 \<or> length ?ds \<le> 4"
    using len by arith
  have e: "\<And>i. detail ?ds i = Inl TypeError \<or> (\<exists>v. detail ?ds i = Inr v)"
    by (simp add: detail_def split: option.split)
  have 4: "detail ?ds 4 = Inl TypeError" using len by (intro detail_out_of_range) simp
  show ?thesis
    unfolding swap_row_def Let_def
    using e [of 0] e [of 1] e [of 2] e [of 3] 4 by auto
qed

lemma map_throwing_all:
  "\<forall>x \<in> set xs. \<exists>y. f x = Inr y \<Longrightarrow>
   \<exists>ys. map_throwing f xs = Inr ys \<and> length ys = length xs
        \<and> (\<forall>i < length xs. f (xs ! i) = Inr (ys ! i))"
proof (induction xs)
  case Nil
  then show ?case by simp
next
  case (Cons x xs)
  then obtain y where y: "f x = Inr y" by auto
  from Cons obtain ys where ys: "map_throwing f xs = Inr ys" "length ys = length xs"
    "\<forall>i < length xs. f (xs ! i) = Inr (ys ! i)" by auto
  have "\<forall>i < length (x # xs). f ((x # xs) ! i) = Inr ((y # ys) ! i)"
    using y ys(3) by (auto simp: nth_Cons split: nat.split)
  then show ?case using y ys by simp
qed

section \<open>The swap table\<close>

lemma join_head: "set x \<subseteq> set (join sep (x # xs))"
  by (cases xs) auto

lemma sentinel_one_line: "CHR ''\<newline>'' \<notin> set sentinel"
  by (simp add: sentinel_def)

lemma activity_text_not_sentinel:
  assumes "blocks \<noteq> []" and "\<forall>b \<in> set blocks. well_formed_block b"
  shows "activity_text blocks \<noteq> sentinel"
proof -
  from assms obtain b bs where blocks: "blocks = b # bs" and wf: "well_formed_block b"
    by (cases blocks) auto
  from wf obtain header d ds where "b = header # d # ds"
    by (cases b; cases "tl b") (auto simp: well_formed_block_def)
  then have "CHR ''\<newline>'' \<in> set (block_text b)"
    by (simp add: block_text_def)
  moreover have "set (block_text b) \<subseteq> set (activity_text blocks)"
    unfolding activity_text_def blocks by (simp add: join_head)
  ultimately show ?thesis using sentinel_one_line by auto
qed

lemma activity_text_blocks:
  assumes "blocks \<noteq> []" and "\<forall>b \<in> set blocks. well_formed_block b"
  shows "js_split (activity_text blocks) ''\<newline>\<newline>'' = map block_text blocks"
proof -
  have "\<forall>t \<in> set (map block_text blocks). \<not> occurs ''\<newline>\<newline>'' (t @ butlast ''\<newline>\<newline>'')"
    using assms(2) block_no_blank by auto
  then have "scan ''\<newline>\<newline>'' (join ''\<newline>\<newline>'' (map block_text blocks)) = map block_text blocks"
    using assms(1) by (intro scan_join) simp_all
  then show ?thesis by (simp add: js_split_def activity_text_def)
qed

lemma well_formed_row:
  assumes "well_formed_block b"
  shows "\<exists>r. swap_row (block_text b) = Inr r"
proof -
  from assms obtain header ds where b: "b = header # ds" and len: "5 \<le> length ds"
    by (cases b) (auto simp: well_formed_block_def)
  have "js_split (block_text b) ''\<newline>'' = header # ds"
    using well_formed_lines [OF assms] b by (simp add: block_lines)
  then show ?thesis using swap_row_lines [OF _ len] by blast
qed

text \<open>
  C1. A text of \<open>N \<ge> 1\<close> well-formed blocks, joined by one blank line, is not the
  sentinel, and the swaps tab renders a table of exactly \<open>N\<close> rows, the \<open>i\<close>-th row
  being the record read from the \<open>i\<close>-th block: nothing is reordered, dropped or merged.
  (The text of no block at all is the empty string, which is one block without lines.)
\<close>

theorem swap_rows_in_block_order:
  assumes "blocks \<noteq> []" and "\<forall>b \<in> set blocks. well_formed_block b"
  shows "activity_text blocks \<noteq> sentinel \<and>
         (\<exists>rows. swaps_tab (activity_text blocks) = Inr (Swap_Table rows)
            \<and> length rows = length blocks
            \<and> (\<forall>i < length blocks. swap_row (block_text (blocks ! i)) = Inr (rows ! i)))"
proof -
  have ns: "activity_text blocks \<noteq> sentinel"
    using assms by (rule activity_text_not_sentinel)
  have "\<forall>t \<in> set (map block_text blocks). \<exists>r. swap_row t = Inr r"
    using assms(2) well_formed_row by auto
  from map_throwing_all [OF this] obtain rows where
    rows: "map_throwing swap_row (map block_text blocks) = Inr rows"
      "length rows = length blocks"
      "\<forall>i < length blocks. swap_row (map block_text blocks ! i) = Inr (rows ! i)"
    by auto
  have "swaps_tab (activity_text blocks) = Inr (Swap_Table rows)"
    using ns rows(1) activity_text_blocks [OF assms]
    by (simp add: swaps_tab_def swap_rows_def)
  moreover have "\<forall>i < length blocks. swap_row (block_text (blocks ! i)) = Inr (rows ! i)"
    using rows(3) by simp
  ultimately show ?thesis using ns rows(2) by blast
qed

lemma example_blocks_well_formed:
  "well_formed_block example_block_1" "well_formed_block example_block_2"
  by (simp_all add: example_block_1_def example_block_2_def well_formed_block_def kv_line_def
        startsWith_def)

lemma example_rows:
  "swap_row (block_text example_block_1) =
     Inr \<lparr>timestamp = Some ''2024-01-01'', fromToken = Some ''SOL'', toToken = Some ''USDC'',
          amount = Some ''10'', usdEquivalent = Some ''$150.00''\<rparr>"
  "swap_row (block_text example_block_2) =
     Inr \<lparr>timestamp = Some ''2024-01-02 10:00'', fromToken = Some ''USDC'',
          toToken = Some ''BONK'', amount = Some ''5'', usdEquivalent = Some ''$5.00''\<rparr>"
  by code_simp+

lemma list_of_two: "length xs = 2 \<Longrightarrow> xs = [xs ! 0, xs ! 1]"
  by (cases xs; cases "tl xs") auto

theorem swap_rows_in_block_order_witness:
  "[example_block_1, example_block_2] \<noteq> []
   \<and> well_formed_block example_block_1 \<and> well_formed_block example_block_2
   \<and> swaps_tab (activity_text [example_block_1, example_block_2]) =
       Inr (Swap_Table
         [\<lparr>timestamp = Some ''2024-01-01'', fromToken = Some ''SOL'', toToken = Some ''USDC'',
           amount = Some ''10'', usdEquivalent = Some ''$150.00''\<rparr>,
          \<lparr>timestamp = Some ''2024-01-02 10:00'', fromToken = Some ''USDC'',
           toToken = Some ''BONK'', amount = Some ''5'', usdEquivalent = Some ''$5.00''\<rparr>])"
proof -
  have wf: "\<forall>b \<in> set [example_block_1, example_block_2]. well_formed_block b"
    using example_blocks_well_formed by simp
  have ne: "[example_block_1, example_block_2] \<noteq> []" by simp
  from swap_rows_in_block_order [OF ne wf] obtain rows where
    tab: "swaps_tab (activity_text [example_block_1, example_block_2]) = Inr (Swap_Table rows)"
    and len: "length rows = 2"
    and nth: "\<forall>i < length [example_block_1, example_block_2].
        swap_row (block_text ([example_block_1, example_block_2] ! i)) = Inr (rows ! i)"
    by auto
  have "swap_row (block_text example_block_1) = Inr (rows ! 0)"
    using nth [rule_format, of 0] by simp
  moreover have "swap_row (block_text example_block_2) = Inr (rows ! 1)"
    using nth [rule_format, of 1] by simp
  ultimately have "rows =
         [\<lparr>timestamp = Some ''2024-01-01'', fromToken = Some ''SOL'', toToken = Some ''USDC'',
           amount = Some ''10'', usdEquivalent = Some ''$150.00''\<rparr>,
          \<lparr>timestamp = Some ''2024-01-02 10:00'', fromToken = Some ''USDC'',
           toToken = Some ''BONK'', amount = Some ''5'', usdEquivalent = Some ''$5.00''\<rparr>]"
    using list_of_two [OF len] example_rows by simp
  then show ?thesis using tab example_blocks_well_formed by simp
qed

section \<open>Field values\<close>

lemma key_colon:
  "\<not> occurs '': '' k \<Longrightarrow> \<not> occurs '': '' (k @ '':'')"
proof (induction k)
  case Nil
  then show ?case by (simp add: startsWith_def)
next
  case (Cons c k)
  then have ih: "\<not> occurs '': '' (k @ '':'')" and no: "\<not> startsWith (c # k) '': ''"
    by simp_all
  have "\<not> startsWith (c # k @ '':'') '': ''"
    using no by (cases k) (auto simp: startsWith_def)
  then show ?case using ih by simp
qed

lemma scan_nonempty: "scan sep s \<noteq> []"
  by (induction sep s rule: scan.induct) (auto split: list.split)

lemma kv_value:
  assumes "\<not> occurs '': '' k"
  shows "at_index (js_split (key_value k v) '': '') 1 = Some (hd (js_split v '': ''))"
proof -
  have "\<not> occurs '': '' (k @ butlast '': '')" using key_colon [OF assms] by simp
  then have "scan '': '' (k @ '': '' @ v) = k # scan '': '' v"
    by (intro scan_piece) simp_all
  then show ?thesis
    using scan_nonempty [of "'': ''" v]
    by (cases "scan '': '' v") (simp_all add: js_split_def at_index_def key_value_def)
qed

lemma value_whole: "\<not> occurs '': '' v \<Longrightarrow> hd (js_split v '': '') = v"
  by (simp add: js_split_def scan_whole)

lemma value_cut: "\<not> occurs '': '' v \<Longrightarrow> hd (js_split (v @ '': '' @ w) '': '') = v"
proof -
  assume "\<not> occurs '': '' v"
  then have "\<not> occurs '': '' (v @ butlast '': '')" using key_colon by simp
  then have "scan '': '' (v @ '': '' @ w) = v # scan '': '' w"
    by (intro scan_piece) simp_all
  then show ?thesis by (simp add: js_split_def)
qed

lemma first_piece:
  assumes "\<not> occurs '': '' v" and "r = [] \<or> startsWith r '': ''"
  shows "hd (js_split (v @ r) '': '') = v"
proof (cases "r = []")
  case True
  then show ?thesis using assms(1) by (simp add: value_whole)
next
  case False
  then have "startsWith r '': ''" using assms(2) by simp
  then have "r = '': '' @ drop 2 r"
    unfolding startsWith_def by (metis append_take_drop_id length_Cons list.size(3) numeral_2_eq_2)
  then show ?thesis using value_cut [OF assms(1), of "drop 2 r"] by simp
qed

text \<open>
  C2 (as amended). In a block whose lines hold no line break and whose first five detail
  lines are \<open>key: value\<close> with a key free of \<open>": "\<close>, the five fields are read in
  the order timestamp, from-token, to-token, amount, USD-equivalent, and each field is the
  text behind the first \<open>": "\<close> up to the next \<open>": "\<close> or the end of the line (\<open>v\<close>
  is that text, \<open>r\<close> what follows it: nothing, or a further separator and more text).
  A value without \<open>": "\<close> is taken whole; one with \<open>": "\<close> is cut there.
\<close>

theorem swap_fields_positional:
  assumes lines: "\<forall>l \<in> set (header # key_value k1 (v1 @ r1) # key_value k2 (v2 @ r2)
                       # key_value k3 (v3 @ r3) # key_value k4 (v4 @ r4)
                       # key_value k5 (v5 @ r5) # extra). CHR ''\<newline>'' \<notin> set l"
    and keys: "\<forall>k \<in> set [k1, k2, k3, k4, k5]. \<not> occurs '': '' k"
    and vals: "\<forall>v \<in> set [v1, v2, v3, v4, v5]. \<not> occurs '': '' v"
    and rests: "\<forall>r \<in> set [r1, r2, r3, r4, r5]. r = [] \<or> startsWith r '': ''"
  shows "swap_row (block_text (header # key_value k1 (v1 @ r1) # key_value k2 (v2 @ r2)
                       # key_value k3 (v3 @ r3) # key_value k4 (v4 @ r4)
                       # key_value k5 (v5 @ r5) # extra)) =
           Inr \<lparr>timestamp = Some v1, fromToken = Some v2, toToken = Some v3,
                amount = Some v4, usdEquivalent = Some v5\<rparr>"
proof -
  let ?ds = "key_value k1 (v1 @ r1) # key_value k2 (v2 @ r2) # key_value k3 (v3 @ r3)
              # key_value k4 (v4 @ r4) # key_value k5 (v5 @ r5) # extra"
  have "js_split (block_text (header # ?ds)) ''\<newline>'' = header # ?ds"
    using lines by (intro block_lines) simp_all
  moreover have "5 \<le> length ?ds" by simp
  ultimately have "swap_row (block_text (header # ?ds)) =
     Inr \<lparr>timestamp = at_index (js_split (?ds ! 0) '': '') 1,
          fromToken = at_index (js_split (?ds ! 1) '': '') 1,
          toToken = at_index (js_split (?ds ! 2) '': '') 1,
          amount = at_index (js_split (?ds ! 3) '': '') 1,
          usdEquivalent = at_index (js_split (?ds ! 4) '': '') 1\<rparr>"
    by (rule swap_row_lines)
  moreover have "?ds ! 0 = key_value k1 (v1 @ r1)" "?ds ! 1 = key_value k2 (v2 @ r2)"
    "?ds ! 2 = key_value k3 (v3 @ r3)" "?ds ! 3 = key_value k4 (v4 @ r4)"
    "?ds ! 4 = key_value k5 (v5 @ r5)"
    by (simp_all add: eval_nat_numeral)
  ultimately have "swap_row (block_text (header # ?ds)) =
           Inr \<lparr>timestamp = Some (hd (js_split (v1 @ r1) '': '')),
                fromToken = Some (hd (js_split (v2 @ r2) '': '')),
                toToken = Some (hd (js_split (v3 @ r3) '': '')),
                amount = Some (hd (js_split (v4 @ r4) '': '')),
                usdEquivalent = Some (hd (js_split (v5 @ r5) '': ''))\<rparr>"
    using keys by (simp add: kv_value [unfolded One_nat_def])
  moreover have "hd (js_split (v1 @ r1) '': '') = v1" "hd (js_split (v2 @ r2) '': '') = v2"
    "hd (js_split (v3 @ r3) '': '') = v3" "hd (js_split (v4 @ r4) '': '') = v4"
    "hd (js_split (v5 @ r5) '': '') = v5"
    using vals rests by (simp_all add: first_piece)
  ultimately show ?thesis by simp
qed

theorem swap_fields_positional_witness:
  "list_all (\<lambda>l. CHR ''\<newline>'' \<notin> set l) cut_block
   \<and> list_all (\<lambda>k. \<not> occurs '': '' k) [''Timestamp'', ''From'', ''To'', ''Amount'', ''USD Equivalent'']
   \<and> list_all (\<lambda>v. \<not> occurs '': '' v) [''2024-01-01 12'', ''SOL'', ''USDC'', ''10'', ''$150.00'']
   \<and> startsWith '': 30'' '': ''
   \<and> cut_block = [''Swap'', key_value ''Timestamp'' (''2024-01-01 12'' @ '': 30''),
        key_value ''From'' ''SOL'', key_value ''To'' ''USDC'', key_value ''Amount'' ''10'',
        key_value ''USD Equivalent'' ''$150.00'']
   \<and> swap_row (block_text cut_block) =
         Inr \<lparr>timestamp = Some ''2024-01-01 12'', fromToken = Some ''SOL'',
              toToken = Some ''USDC'', amount = Some ''10'', usdEquivalent = Some ''$150.00''\<rparr>"
proof -
  have lines: "\<forall>l \<in> set (''Swap'' # key_value ''Timestamp'' (''2024-01-01 12'' @ '': 30'')
        # key_value ''From'' (''SOL'' @ '''') # key_value ''To'' (''USDC'' @ '''')
        # key_value ''Amount'' (''10'' @ '''') # key_value ''USD Equivalent'' (''$150.00'' @ '''')
        # []). CHR ''\<newline>'' \<notin> set l"
    by (simp add: key_value_def)
  have keys: "\<forall>k \<in> set [''Timestamp'', ''From'', ''To'', ''Amount'', ''USD Equivalent''].
         \<not> occurs '': '' k"
    by (simp add: startsWith_def)
  have vals: "\<forall>v \<in> set [''2024-01-01 12'', ''SOL'', ''USDC'', ''10'', ''$150.00'']. \<not> occurs '': '' v"
    by (simp add: startsWith_def)
  have rests: "\<forall>r \<in> set ['': 30'', '''', '''', '''', '''']. r = [] \<or> startsWith r '': ''"
    by (simp add: startsWith_def)
  have "cut_block = ''Swap'' # key_value ''Timestamp'' (''2024-01-01 12'' @ '': 30'')
        # key_value ''From'' (''SOL'' @ '''') # key_value ''To'' (''USDC'' @ '''')
        # key_value ''Amount'' (''10'' @ '''') # key_value ''USD Equivalent'' (''$150.00'' @ '''')
        # []"
    by (simp add: cut_block_def key_value_def)
  then show ?thesis
    using swap_fields_positional [OF lines keys vals rests] lines keys vals rests
    by (simp add: startsWith_def list_all_iff)
qed

text \<open>
  Counterexample to C2 as stated: the value \<open>2024-01-01 12: 30\<close> is not captured in
  full.
\<close>

theorem value_with_separator_is_cut:
  "cut_block ! 1 = ''Timestamp'' @ '': '' @ ''2024-01-01 12: 30''
   \<and> map_sum id timestamp (swap_row (block_text cut_block)) = Inr (Some ''2024-01-01 12'')
   \<and> map_sum id timestamp (swap_row (block_text cut_block)) \<noteq> Inr (Some ''2024-01-01 12: 30'')"
  by code_simp

section \<open>The sentinel\<close>

lemma map_throwing_nonempty: "xs \<noteq> [] \<Longrightarrow> map_throwing f xs \<noteq> Inr []"
  by (cases xs) (auto split: sum.split)

lemma js_split_nonempty: "sep \<noteq> [] \<Longrightarrow> js_split s sep \<noteq> []"
  by (simp add: js_split_def scan_nonempty)

lemma swap_rows_nonempty: "swap_rows s \<noteq> Inr []"
  unfolding swap_rows_def by (intro map_throwing_nonempty js_split_nonempty) simp

text \<open>
  C3. The swaps tab shows the sentinel message exactly when the whole text is the
  sentinel; that is also the only input for which it succeeds with no record at all.
  Every other text goes through the split into blocks, which renders the table of
  \<open>swap_rows\<close> or throws, and whose table is never empty.
\<close>

theorem sentinel_only_empty:
  "(swaps_tab s = Inr (Sentinel_Message sentinel)) = (s = sentinel)
   \<and> ((\<exists>v. swaps_tab s = Inr v \<and> rows_of v = []) = (s = sentinel))
   \<and> (s \<noteq> sentinel \<longrightarrow>
        swaps_tab s = (case swap_rows s of Inl e \<Rightarrow> Inl e | Inr rows \<Rightarrow> Inr (Swap_Table rows))
        \<and> swaps_tab s \<noteq> Inr (Swap_Table []))"
proof -
  have a: "(swaps_tab s = Inr (Sentinel_Message sentinel)) = (s = sentinel)"
    by (auto simp: swaps_tab_def split: sum.split)
  have c: "swaps_tab s = (case swap_rows s of Inl e \<Rightarrow> Inl e | Inr rows \<Rightarrow> Inr (Swap_Table rows))
        \<and> swaps_tab s \<noteq> Inr (Swap_Table [])" if "s \<noteq> sentinel"
    using that swap_rows_nonempty [of s] by (auto simp: swaps_tab_def split: sum.split)
  have b: "(\<exists>v. swaps_tab s = Inr v \<and> rows_of v = []) = (s = sentinel)"
  proof
    assume "\<exists>v. swaps_tab s = Inr v \<and> rows_of v = []"
    then obtain v where v: "swaps_tab s = Inr v" "rows_of v = []" by blast
    show "s = sentinel"
    proof (rule ccontr)
      assume ns: "s \<noteq> sentinel"
      then obtain rows where "swap_rows s = Inr rows" "v = Swap_Table rows"
        using v(1) by (auto simp: swaps_tab_def split: sum.splits)
      then show False using v(2) swap_rows_nonempty [of s] by simp
    qed
  next
    assume "s = sentinel"
    then have "swaps_tab s = Inr (Sentinel_Message sentinel)" by (simp add: swaps_tab_def)
    then show "\<exists>v. swaps_tab s = Inr v \<and> rows_of v = []" by simp
  qed
  from a b c show ?thesis by blast
qed

theorem sentinel_only_empty_witness:
  "''Swap'' \<noteq> sentinel
   \<and> swaps_tab ''Swap'' = Inl TypeError
   \<and> swaps_tab ''Swap'' \<noteq> Inr (Swap_Table [])
   \<and> swaps_tab ''No swap activity data available.'' =
       Inr (Sentinel_Message ''No swap activity data available.'')"
proof -
  have ns: "''Swap'' \<noteq> sentinel" by (simp add: sentinel_def)
  have s: "''No swap activity data available.'' = sentinel" by (simp add: sentinel_def)
  have rows: "swap_rows ''Swap'' = Inl TypeError" by code_simp
  from sentinel_only_empty [of "''Swap''"] ns
  have "swaps_tab ''Swap'' =
          (case swap_rows ''Swap'' of Inl e \<Rightarrow> Inl e | Inr rows \<Rightarrow> Inr (Swap_Table rows))"
    and "swaps_tab ''Swap'' \<noteq> Inr (Swap_Table [])"
    by blast+
  moreover from sentinel_only_empty [of sentinel]
  have "swaps_tab sentinel = Inr (Sentinel_Message sentinel)" by blast
  ultimately show ?thesis using ns rows s by simp
qed

section \<open>Blocks that are too short\<close>

lemma swap_row_error: "swap_row b = Inl e \<Longrightarrow> e = TypeError"
  by (auto simp: swap_row_def detail_def Let_def split: sum.splits option.splits)

lemma map_throwing_fails:
  assumes "\<And>x e. f x = Inl e \<Longrightarrow> e = TypeError"
  shows "x \<in> set xs \<Longrightarrow> f x = Inl TypeError \<Longrightarrow> map_throwing f xs = Inl TypeError"
proof (induction xs)
  case Nil
  then show ?case by simp
next
  case (Cons y ys)
  show ?case
  proof (cases "f y")
    case (Inl e)
    then show ?thesis using assms by auto
  next
    case (Inr r)
    then have "x \<in> set ys" using Cons.prems by auto
    then have "map_throwing f ys = Inl TypeError" using Cons by blast
    then show ?thesis using Inr by simp
  qed
qed

text \<open>
  C7. A block of fewer than six lines makes the row callback read \<open>split\<close> of
  \<open>undefined\<close>: the row fails with a TypeError, and so does the whole swaps tab for
  every text other than the sentinel that has such a block. No row is skipped and no
  partial record is built.
\<close>

theorem short_block_fails:
  assumes "length (js_split block ''\<newline>'') < 6"
  shows "swap_row block = Inl TypeError
         \<and> (\<forall>s. s \<noteq> sentinel \<and> block \<in> set (js_split s ''\<newline>\<newline>'')
                \<longrightarrow> swaps_tab s = Inl TypeError)"
proof -
  have row: "swap_row block = Inl TypeError"
    using assms by (rule swap_row_short)
  have "swaps_tab s = Inl TypeError"
    if "s \<noteq> sentinel" "block \<in> set (js_split s ''\<newline>\<newline>'')" for s
  proof -
    have "map_throwing swap_row (js_split s ''\<newline>\<newline>'') = Inl TypeError"
      using swap_row_error that(2) row by (rule map_throwing_fails)
    then show ?thesis using that(1) by (simp add: swaps_tab_def swap_rows_def)
  qed
  then show ?thesis using row by blast
qed

theorem short_block_fails_witness:
  "length (js_split short_block ''\<newline>'') < 6
   \<and> swap_row short_block = Inl TypeError
   \<and> swaps_tab (block_text example_block_1 @ ''\<newline>\<newline>'' @ short_block) = Inl TypeError"
proof -
  have len: "length (js_split short_block ''\<newline>'') < 6" by code_simp
  have ns: "block_text example_block_1 @ ''\<newline>\<newline>'' @ short_block \<noteq> sentinel" by code_simp
  have mem: "short_block \<in> set (js_split (block_text example_block_1 @ ''\<newline>\<newline>'' @ short_block) ''\<newline>\<newline>'')"
    by code_simp
  show ?thesis using short_block_fails [OF len] len ns mem by blast
qed

section \<open>Sign classes\<close>

lemma startsWith_minus: "startsWith s ''-'' = (\<exists>t. s = CHR ''-'' # t)"
  by (cases s) (auto simp: startsWith_def)

text \<open>
  C4. \<open>classifySign\<close> is a function on all strings: \<open>negative\<close> exactly for the strings
  whose first character is \<open>-\<close>, \<open>positive\<close> for every other string (the empty one
  too). The icon and colour of the overall-PNL card, the colour of the PNL-percentage card
  and the colour class of every box of the breakdown by token are this class of their own
  text.
\<close>

theorem classifySign_rule:
  "(classifySign s = negative \<longleftrightarrow> (\<exists>t. s = CHR ''-'' # t))
   \<and> (classifySign s = positive \<longleftrightarrow> \<not> (\<exists>t. s = CHR ''-'' # t))
   \<and> classifySign ''0.00'' = positive
   \<and> classifySign ''-5.2%'' = negative
   \<and> card_icon (overall_pnl_card a) =
       (case classifySign a of negative \<Rightarrow> ArrowDownRight | positive \<Rightarrow> ArrowUpRight)
   \<and> card_color (overall_pnl_card a) =
       (case classifySign a of negative \<Rightarrow> ''red'' | positive \<Rightarrow> ''green'')
   \<and> card_color (pnl_percentage_card b) =
       (case classifySign b of negative \<Rightarrow> ''red'' | positive \<Rightarrow> ''green'')
   \<and> map box_class (case breakdown (overview_tab L tv tc a b items) of None \<Rightarrow> [] | Some bs \<Rightarrow> bs) =
       map (\<lambda>item. case classifySign (pnl_amount item) of
                     negative \<Rightarrow> ''text-red-400'' | positive \<Rightarrow> ''text-green-400'') items
   \<and> drop 2 (cards (overview_tab L tv tc a b items)) = [overall_pnl_card a, pnl_percentage_card b]"
proof -
  have 1: "classifySign s = negative \<longleftrightarrow> (\<exists>t. s = CHR ''-'' # t)"
    by (simp add: classifySign_def startsWith_minus)
  have 2: "classifySign s = positive \<longleftrightarrow> \<not> (\<exists>t. s = CHR ''-'' # t)"
    by (simp add: classifySign_def startsWith_minus)
  have 3: "classifySign ''0.00'' = positive" "classifySign ''-5.2%'' = negative"
    by (simp_all add: classifySign_def startsWith_def)
  have 4: "card_icon (overall_pnl_card a) =
       (case classifySign a of negative \<Rightarrow> ArrowDownRight | positive \<Rightarrow> ArrowUpRight)"
    "card_color (overall_pnl_card a) =
       (case classifySign a of negative \<Rightarrow> ''red'' | positive \<Rightarrow> ''green'')"
    "card_color (pnl_percentage_card b) =
       (case classifySign b of negative \<Rightarrow> ''red'' | positive \<Rightarrow> ''green'')"
    by (simp_all add: classifySign_def overall_pnl_card_def pnl_percentage_card_def)
  have 5: "map box_class (case breakdown (overview_tab L tv tc a b items) of None \<Rightarrow> [] | Some bs \<Rightarrow> bs) =
       map (\<lambda>item. case classifySign (pnl_amount item) of
                     negative \<Rightarrow> ''text-red-400'' | positive \<Rightarrow> ''text-green-400'') items"
    by (simp add: overview_tab_def pnl_box_def classifySign_def)
  have 6: "drop 2 (cards (overview_tab L tv tc a b items)) = [overall_pnl_card a, pnl_percentage_card b]"
    by (simp add: overview_tab_def)
  from 1 2 3 4 5 6 show ?thesis by blast
qed

text \<open>
  C8. Two runs that agree on \<open>overallPNL\<close> give the overall-PNL card the same icon and
  colour, whatever \<open>pnlPercentage\<close> (and every other input) is; two runs that agree on
  \<open>pnlPercentage\<close> give the PNL-percentage card the same icon and colour, whatever
  \<open>overallPNL\<close> is. The icon of the percentage card is \<open>Activity\<close> for every text.
\<close>

theorem pnl_cards_noninterference:
  "card_icon (cards (overview_tab L tv tc a b items) ! 2)
     = card_icon (cards (overview_tab L' tv' tc' a b' items') ! 2)
   \<and> card_color (cards (overview_tab L tv tc a b items) ! 2)
     = card_color (cards (overview_tab L' tv' tc' a b' items') ! 2)
   \<and> card_icon (cards (overview_tab L tv tc a b items) ! 3)
     = card_icon (cards (overview_tab L' tv' tc' a' b items') ! 3)
   \<and> card_color (cards (overview_tab L tv tc a b items) ! 3)
     = card_color (cards (overview_tab L' tv' tc' a' b items') ! 3)
   \<and> cards (overview_tab L tv tc a b items) ! 2 = overall_pnl_card a
   \<and> cards (overview_tab L tv tc a b items) ! 3 = pnl_percentage_card b
   \<and> card_icon (overall_pnl_card ''-12.34'') = ArrowDownRight
   \<and> card_color (overall_pnl_card ''-12.34'') = ''red''
   \<and> card_icon (pnl_percentage_card b) = Activity"
  by (simp add: overview_tab_def overall_pnl_card_def pnl_percentage_card_def startsWith_def
        numeral_2_eq_2 numeral_3_eq_3)

section \<open>The guard on missing data\<close>

text \<open>
  C10. With a total value below zero the component shows the "no portfolio data" state
  exactly when none of the other three inputs has data: the negative total never makes
  the tabbed view appear.
\<close>

theorem negative_total_is_no_data:
  assumes "totalValue p = Finite r" and "r < 0"
  shows "(WalletAnalysis L p t = Inr No_Portfolio_Data)
           = (\<not> gt_zero (tokenCount p) \<and> topTokens p = [] \<and> recentTransactions p = [])"
  using assms by (auto simp: WalletAnalysis_def hasData_def split: sum.splits)

theorem negative_total_is_no_data_witness:
  "totalValue (empty_snapshot\<lparr>totalValue := Finite (- 5)\<rparr>) = Finite (- 5)
   \<and> (- 5 :: real) < 0
   \<and> tokenCount (empty_snapshot\<lparr>totalValue := Finite (- 5)\<rparr>) = Finite 0
   \<and> WalletAnalysis example_lib (empty_snapshot\<lparr>totalValue := Finite (- 5)\<rparr>) Overview
       = Inr No_Portfolio_Data"
proof -
  have 1: "totalValue (empty_snapshot\<lparr>totalValue := Finite (- 5)\<rparr>) = Finite (- 5)" by simp
  have 2: "(- 5 :: real) < 0" by simp
  show ?thesis
    using negative_total_is_no_data [OF 1 2, of example_lib Overview]
    by (simp add: empty_snapshot_def)
qed

text \<open>
  C6 (as amended). When all four inputs are zero or empty the "no portfolio data" state
  is shown in place of the tabbed view. When one of the two numbers is greater than zero
  or one of the two lists is not empty, the component takes the tabbed path: its result
  is the view of the active tab (or the exception that tab throws), and the overview tab
  is always rendered.
\<close>

theorem no_data_guard:
  "(totalValue p = Finite 0 \<and> tokenCount p = Finite 0 \<and> topTokens p = []
      \<and> recentTransactions p = [] \<longrightarrow> WalletAnalysis L p t = Inr No_Portfolio_Data)
   \<and> (gt_zero (totalValue p) \<or> gt_zero (tokenCount p) \<or> topTokens p \<noteq> []
        \<or> recentTransactions p \<noteq> [] \<longrightarrow>
        WalletAnalysis L p t \<noteq> Inr No_Portfolio_Data
        \<and> WalletAnalysis L p t =
            (case tab_view L p t of Inl e \<Rightarrow> Inl e | Inr c \<Rightarrow> Inr (Tabbed_View t c))
        \<and> (\<exists>c. WalletAnalysis L p Overview = Inr (Tabbed_View Overview c)))"
  by (auto simp: WalletAnalysis_def hasData_def split: sum.splits)

theorem no_data_guard_witness:
  "totalValue empty_snapshot = Finite 0 \<and> tokenCount empty_snapshot = Finite 0
   \<and> topTokens empty_snapshot = [] \<and> recentTransactions empty_snapshot = []
   \<and> WalletAnalysis example_lib empty_snapshot Swaps = Inr No_Portfolio_Data
   \<and> gt_zero (tokenCount (empty_snapshot\<lparr>tokenCount := Finite 1\<rparr>))
   \<and> WalletAnalysis example_lib (empty_snapshot\<lparr>tokenCount := Finite 1\<rparr>) Swaps =
       Inr (Tabbed_View Swaps (Swaps_Content (Sentinel_Message ''No swap activity data available.'')))"
proof -
  have e: "totalValue empty_snapshot = Finite 0 \<and> tokenCount empty_snapshot = Finite 0
     \<and> topTokens empty_snapshot = [] \<and> recentTransactions empty_snapshot = []"
    by (simp add: empty_snapshot_def)
  have g: "gt_zero (tokenCount (empty_snapshot\<lparr>tokenCount := Finite 1\<rparr>))" by simp
  have t: "tab_view example_lib (empty_snapshot\<lparr>tokenCount := Finite 1\<rparr>) Swaps =
      Inr (Swaps_Content (Sentinel_Message ''No swap activity data available.''))"
    by (simp add: empty_snapshot_def swaps_tab_def sentinel_def)
  show ?thesis
    using no_data_guard [of empty_snapshot example_lib Swaps]
      no_data_guard [of "empty_snapshot\<lparr>tokenCount := Finite 1\<rparr>" example_lib Swaps] e g t
    by simp
qed

text \<open>
  Counterexample to C6 as stated: a total value of \<open>-1\<close> is not zero, yet the
  "no portfolio data" state is shown.
\<close>

theorem negative_total_counterexample:
  "totalValue (empty_snapshot\<lparr>totalValue := Finite (- 1)\<rparr>) \<noteq> Finite 0
   \<and> WalletAnalysis example_lib (empty_snapshot\<lparr>totalValue := Finite (- 1)\<rparr>) Overview
       = Inr No_Portfolio_Data"
  by (simp add: empty_snapshot_def WalletAnalysis_def hasData_def)

section \<open>Transactions without balance changes\<close>

text \<open>
  C5 (as amended). For a transaction whose \<open>balanceChange\<close> is empty, reading
  \<open>balanceChange[0]\<close> throws nothing: the row is built whenever the block time can be
  formatted, its logo is the placeholder, and its symbol and its amount are both absent.
\<close>

theorem empty_balance_change_row:
  assumes "balanceChange transaction = []"
  shows "transaction_row L transaction =
           (case formatDistanceToNow L (blockTime transaction) of
              Inl e \<Rightarrow> Inl e
            | Inr ago \<Rightarrow>
                Inr \<lparr>row_action = mainAction transaction, row_time = ago,
                     row_src = ''/placeholder.svg'', row_alt = None, row_symbol = None,
                     row_amount = None\<rparr>)"
  using assms by (simp add: transaction_row_def at_index_def split: sum.split)

theorem empty_balance_change_row_witness:
  "balanceChange bare_transaction = []
   \<and> transaction_row example_lib bare_transaction =
       Inr \<lparr>row_action = ''transfer'', row_time = ''1 day ago'',
            row_src = ''/placeholder.svg'', row_alt = None, row_symbol = None,
            row_amount = None\<rparr>"
proof -
  have e: "balanceChange bare_transaction = []" by (simp add: bare_transaction_def)
  show ?thesis
    using empty_balance_change_row [OF e, of example_lib] e
    by (simp add: bare_transaction_def example_lib_def)
qed

text \<open>
  Counterexample to C5 as stated: the amount of such a row is absent, not the text
  \<open>N/A\<close>.
\<close>

theorem empty_balance_change_amount_absent:
  "balanceChange bare_transaction = []
   \<and> map_sum id row_amount (transaction_row example_lib bare_transaction) = Inr None
   \<and> map_sum id row_amount (transaction_row example_lib bare_transaction) \<noteq> Inr (Some ''N/A'')"
  by (simp add: bare_transaction_def example_lib_def transaction_row_def at_index_def)

section \<open>The fallback badge\<close>

lemma ascii_upper_letters:
  "map ascii_upper ''abcdefghijklmnopqrstuvwxyz'' = ''ABCDEFGHIJKLMNOPQRSTUVWXYZ''"
  by (simp add: ascii_upper_def)

lemma ascii_upper_other:
  "c \<notin> set ''abcdefghijklmnopqrstuvwxyz'' \<Longrightarrow> ascii_upper c = c"
  by (simp add: ascii_upper_def)

lemma render_instances_nth:
  "length states = length props \<Longrightarrow> j < length props
   \<Longrightarrow> render_instances view props states scope ! j = view (props ! j) (states ! j) scope"
  by (simp add: render_instances_def)

lemma fire_TokenLogo:
  "length errors = length symbols \<Longrightarrow>
   fire TokenLogo_onError i symbols errors scope = (errors[i := True], scope)"
  by (auto simp: fire_def TokenLogo_onError_def list_update_beyond)

text \<open>
  The isolation of instances is a property of the component, not of the way instances
  are mounted: a component that notes the failure at module scope under the symbol
  changes what another instance with that symbol shows.
\<close>

lemma failure_kept_at_module_scope_is_shared:
  "render_instances (\<lambda>p s g. s \<or> g p) [''SOL'', ''SOL'']
     (fst (fire (\<lambda>p s g. (True, g(p := True))) 0 [''SOL'', ''SOL''] [False, False] (\<lambda>p. False)))
     (snd (fire (\<lambda>p s g. (True, g(p := True))) 0 [''SOL'', ''SOL''] [False, False] (\<lambda>p. False))) ! 1
   \<noteq> render_instances (\<lambda>p s g. s \<or> g p) [''SOL'', ''SOL''] [False, False] (\<lambda>p. False) ! 1"
  by (simp add: render_instances_def fire_def)

text \<open>
  C9. For every symbol, a \<open>TokenLogo\<close> whose image has failed shows
  \<open>symbol.slice(0, 2).toUpperCase()\<close>, a function of the symbol alone. For a symbol of
  ASCII characters that is a badge of \<open>min 2 (length symbol)\<close> characters, the
  \<open>k\<close>-th being the \<open>k\<close>-th character of the symbol with \<open>a\<close> to \<open>z\<close> replaced by
  \<open>A\<close> to \<open>Z\<close> and every other character kept. The failure is the state of the one
  instance whose image failed: that instance shows the badge, and every other instance,
  also one with the same symbol, is rendered as before.
\<close>

theorem logo_fallback_badge:
  "TokenLogo toUpperCase (Some symbol) True = Inr (Badge (toUpperCase (take 2 symbol)))
   \<and> ((\<forall>s. list_all ascii s \<longrightarrow> toUpperCase s = map ascii_upper s) \<and> list_all ascii symbol \<longrightarrow>
        (\<exists>b. TokenLogo toUpperCase (Some symbol) True = Inr (Badge b)
            \<and> length b = min 2 (length symbol)
            \<and> (\<forall>k < length b. b ! k = ascii_upper (symbol ! k))))
   \<and> map ascii_upper ''abcdefghijklmnopqrstuvwxyz'' = ''ABCDEFGHIJKLMNOPQRSTUVWXYZ''
   \<and> (\<forall>c. c \<notin> set ''abcdefghijklmnopqrstuvwxyz'' \<longrightarrow> ascii_upper c = c)
   \<and> (length errors = length symbols \<and> i < length symbols \<and> symbols ! i = Some symbol \<longrightarrow>
        render_instances (TokenLogo_view toUpperCase) symbols
          (fst (fire TokenLogo_onError i symbols errors scope))
          (snd (fire TokenLogo_onError i symbols errors scope)) ! i
        = Inr (Badge (toUpperCase (take 2 symbol))))
   \<and> (length errors = length symbols \<and> j < length symbols \<and> j \<noteq> i \<longrightarrow>
        render_instances (TokenLogo_view toUpperCase) symbols
          (fst (fire TokenLogo_onError i symbols errors scope))
          (snd (fire TokenLogo_onError i symbols errors scope)) ! j
        = render_instances (TokenLogo_view toUpperCase) symbols errors scope ! j)"
proof -
  have 1: "TokenLogo toUpperCase (Some symbol) True = Inr (Badge (toUpperCase (take 2 symbol)))"
    by (simp add: TokenLogo_def)
  have 2: "\<exists>b. TokenLogo toUpperCase (Some symbol) True = Inr (Badge b)
            \<and> length b = min 2 (length symbol)
            \<and> (\<forall>k < length b. b ! k = ascii_upper (symbol ! k))"
    if lib: "\<forall>s. list_all ascii s \<longrightarrow> toUpperCase s = map ascii_upper s"
      and sym: "list_all ascii symbol"
  proof -
    have "list_all ascii (take 2 symbol)"
      using sym by (auto simp: list_all_iff dest: in_set_takeD)
    then have "toUpperCase (take 2 symbol) = map ascii_upper (take 2 symbol)"
      using lib by blast
    then have "TokenLogo toUpperCase (Some symbol) True = Inr (Badge (map ascii_upper (take 2 symbol)))"
      using 1 by simp
    moreover have "length (map ascii_upper (take 2 symbol)) = min 2 (length symbol)"
      by (simp add: min.commute)
    moreover have "\<forall>k < length (map ascii_upper (take 2 symbol)).
        map ascii_upper (take 2 symbol) ! k = ascii_upper (symbol ! k)"
      by simp
    ultimately show ?thesis by blast
  qed
  have 3: "render_instances (TokenLogo_view toUpperCase) symbols
          (fst (fire TokenLogo_onError i symbols errors scope))
          (snd (fire TokenLogo_onError i symbols errors scope)) ! i
        = Inr (Badge (toUpperCase (take 2 symbol)))"
    if "length errors = length symbols" "i < length symbols" "symbols ! i = Some symbol"
    using that 1 by (simp add: fire_TokenLogo render_instances_nth TokenLogo_view_def)
  have 4: "render_instances (TokenLogo_view toUpperCase) symbols
          (fst (fire TokenLogo_onError i symbols errors scope))
          (snd (fire TokenLogo_onError i symbols errors scope)) ! j
        = render_instances (TokenLogo_view toUpperCase) symbols errors scope ! j"
    if "length errors = length symbols" "j < length symbols" "j \<noteq> i"
    using that by (simp add: fire_TokenLogo render_instances_nth)
  from 1 2 3 4 ascii_upper_letters ascii_upper_other show ?thesis by blast
qed

theorem logo_fallback_badge_witness:
  "list_all ascii ''sol''
   \<and> swap_logos sol_rows = [Some ''sol'', Some ''USDC'', Some ''sol'', Some ''Bonk'']
   \<and> length (initial_errors (swap_logos sol_rows)) = length (swap_logos sol_rows)
   \<and> swap_logos sol_rows ! 0 = swap_logos sol_rows ! 2
   \<and> TokenLogo (map ascii_upper) (Some ''sol'') True = Inr (Badge ''SO'')
   \<and> render_instances (TokenLogo_view (map ascii_upper)) (swap_logos sol_rows)
        (fst (fire TokenLogo_onError 0 (swap_logos sol_rows) (initial_errors (swap_logos sol_rows)) ()))
        (snd (fire TokenLogo_onError 0 (swap_logos sol_rows) (initial_errors (swap_logos sol_rows)) ())) ! 0
       = Inr (Badge ''SO'')
   \<and> render_instances (TokenLogo_view (map ascii_upper)) (swap_logos sol_rows)
        (fst (fire TokenLogo_onError 0 (swap_logos sol_rows) (initial_errors (swap_logos sol_rows)) ()))
        (snd (fire TokenLogo_onError 0 (swap_logos sol_rows) (initial_errors (swap_logos sol_rows)) ())) ! 2
       = Inr (Img ''https://raw.githubusercontent.com/solana-labs/token-list/main/assets/mainnet/sol/logo.png''
                  ''sol logo'')"
proof -
  let ?s = "swap_logos sol_rows"
  let ?e = "initial_errors ?s"
  let ?up = "map ascii_upper"
  have logos: "?s = [Some ''sol'', Some ''USDC'', Some ''sol'', Some ''Bonk'']"
    by (simp add: swap_logos_def sol_rows_def)
  have len: "length ?e = length ?s" by (simp add: initial_errors_def)
  have asc: "list_all ascii ''sol''" by (simp add: ascii_def)
  have lib: "\<forall>s. list_all ascii s \<longrightarrow> ?up s = map ascii_upper s" by simp
  have i0: "0 < length ?s" and i2: "2 < length ?s" and ne: "(2::nat) \<noteq> 0"
    and at0: "?s ! 0 = Some ''sol''"
    by (simp_all add: logos)
  note inst = logo_fallback_badge [of ?up "''sol''" ?e ?s 0 "()" 2]
  have up: "?up (take 2 ''sol'') = ''SO''" by (simp add: ascii_upper_def)
  have a: "TokenLogo ?up (Some ''sol'') True = Inr (Badge ''SO'')"
    using inst up by simp
  have b: "render_instances (TokenLogo_view ?up) ?s (fst (fire TokenLogo_onError 0 ?s ?e ()))
             (snd (fire TokenLogo_onError 0 ?s ?e ())) ! 0 = Inr (Badge ''SO'')"
    using inst len i0 at0 up by simp
  have c: "render_instances (TokenLogo_view ?up) ?s (fst (fire TokenLogo_onError 0 ?s ?e ()))
             (snd (fire TokenLogo_onError 0 ?s ?e ())) ! 2
           = render_instances (TokenLogo_view ?up) ?s ?e () ! 2"
    using inst len i2 ne by blast
  have before: "render_instances (TokenLogo_view ?up) ?s ?e () ! 2 =
      Inr (Img ''https://raw.githubusercontent.com/solana-labs/token-list/main/assets/mainnet/sol/logo.png''
               ''sol logo'')"
    by (simp add: logos initial_errors_def render_instances_def TokenLogo_view_def TokenLogo_def)
  show ?thesis using asc logos len a b c before by simp
qed

end
